theory Spec2Isabelle
  imports Complex_Main
begin

section \<open>Settings\<close>

text \<open>
  The module constants of \<^verbatim>\<open>jump_and_run.py\<close>. Python floats are modelled as
  exact reals, Python ints as unbounded integers.
\<close>

definition SCREEN_WIDTH :: int where "SCREEN_WIDTH = 980"
definition SCREEN_HEIGHT :: int where "SCREEN_HEIGHT = 560"
definition FPS :: int where "FPS = 60"

definition GRAVITY :: real where "GRAVITY = 2000"
definition PLAYER_SPEED :: real where "PLAYER_SPEED = 280"
definition PLAYER_JUMP_VELOCITY :: real where "PLAYER_JUMP_VELOCITY = 750"

definition PLATFORM_MIN_WIDTH :: int where "PLATFORM_MIN_WIDTH = 60"
definition PLATFORM_MAX_WIDTH :: int where "PLATFORM_MAX_WIDTH = 300"
definition PLATFORM_MIN_GAP :: int where "PLATFORM_MIN_GAP = 60"
definition PLATFORM_MAX_GAP :: int where "PLATFORM_MAX_GAP = 120"
definition PLATFORM_MIN_Y :: int where "PLATFORM_MIN_Y = 120"
definition PLATFORM_MAX_Y :: int where "PLATFORM_MAX_Y = SCREEN_HEIGHT - 60"
definition GEN_AHEAD :: int where "GEN_AHEAD = SCREEN_WIDTH * 2"
definition CLEANUP_BEHIND :: int where "CLEANUP_BEHIND = 600"
definition TEMP_PLATFORM_CHANCE :: real where "TEMP_PLATFORM_CHANCE = 15 / 100"
definition TEMP_PLATFORM_LIFETIME :: real where "TEMP_PLATFORM_LIFETIME = 5"

lemmas settings =
  SCREEN_WIDTH_def SCREEN_HEIGHT_def FPS_def GRAVITY_def PLAYER_SPEED_def
  PLAYER_JUMP_VELOCITY_def PLATFORM_MIN_WIDTH_def PLATFORM_MAX_WIDTH_def
  PLATFORM_MIN_GAP_def PLATFORM_MAX_GAP_def PLATFORM_MIN_Y_def PLATFORM_MAX_Y_def
  GEN_AHEAD_def CLEANUP_BEHIND_def TEMP_PLATFORM_CHANCE_def TEMP_PLATFORM_LIFETIME_def

section \<open>Library values the program relies on\<close>

text \<open>
  Python's \<^verbatim>\<open>int(f)\<close> on a float truncates towards zero.
\<close>

definition py_int :: "real \<Rightarrow> int" where
  "py_int r = (if 0 \<le> r then \<lfloor>r\<rfloor> else \<lceil>r\<rceil>)"

text \<open>
  \<^verbatim>\<open>pygame.Rect\<close>: four integer fields; \<^verbatim>\<open>top\<close> is \<^verbatim>\<open>y\<close>, \<^verbatim>\<open>bottom\<close> is
  \<^verbatim>\<open>y + h\<close>, and assigning to either moves the rectangle without resizing it.
  \<^verbatim>\<open>colliderect\<close> is pygame's intersection test: rectangles of zero width or height
  collide with nothing, and edges that merely touch do not overlap.
\<close>

record Rect =
  rect_x :: int
  rect_y :: int
  rect_w :: int
  rect_h :: int

definition mk_Rect :: "int \<Rightarrow> int \<Rightarrow> int \<Rightarrow> int \<Rightarrow> Rect" where
  "mk_Rect a b c d = \<lparr>rect_x = a, rect_y = b, rect_w = c, rect_h = d\<rparr>"

definition rect_top :: "Rect \<Rightarrow> int" where
  "rect_top r = rect_y r"

definition rect_bottom :: "Rect \<Rightarrow> int" where
  "rect_bottom r = rect_y r + rect_h r"

definition set_bottom :: "Rect \<Rightarrow> int \<Rightarrow> Rect" where
  "set_bottom r v = r\<lparr>rect_y := v - rect_h r\<rparr>"

definition set_top :: "Rect \<Rightarrow> int \<Rightarrow> Rect" where
  "set_top r v = r\<lparr>rect_y := v\<rparr>"

definition colliderect :: "Rect \<Rightarrow> Rect \<Rightarrow> bool" where
  "colliderect a b =
     (if rect_w a = 0 \<or> rect_h a = 0 \<or> rect_w b = 0 \<or> rect_h b = 0 then False
      else min (rect_x a) (rect_x a + rect_w a) < max (rect_x b) (rect_x b + rect_w b)
         \<and> min (rect_y a) (rect_y a + rect_h a) < max (rect_y b) (rect_y b + rect_h b)
         \<and> max (rect_x a) (rect_x a + rect_w a) > min (rect_x b) (rect_x b + rect_w b)
         \<and> max (rect_y a) (rect_y a + rect_h a) > min (rect_y b) (rect_y b + rect_h b))"

section \<open>Platform\<close>

record Platform =
  plat_x :: int
  plat_y :: int
  plat_w :: int
  plat_h :: int
  plat_rect :: Rect
  temporary :: bool
  timer :: real
  activated :: bool

text \<open>\<^verbatim>\<open>Platform.__init__(x, y, w, h=20, temporary=False)\<close>.\<close>

definition Platform_init :: "int \<Rightarrow> int \<Rightarrow> int \<Rightarrow> int \<Rightarrow> bool \<Rightarrow> Platform" where
  "Platform_init a b c d t =
     \<lparr>plat_x = a, plat_y = b, plat_w = c, plat_h = d, plat_rect = mk_Rect a b c d,
      temporary = t, timer = 2, activated = False\<rparr>"

section \<open>Player\<close>

record Player =
  player_x :: real
  player_y :: real
  player_w :: int
  player_h :: int
  vx :: real
  vy :: real
  on_ground :: bool
  player_rect :: Rect

definition Player_init :: "int \<Rightarrow> int \<Rightarrow> Player" where
  "Player_init a b =
     \<lparr>player_x = of_int a, player_y = of_int b, player_w = 36, player_h = 52,
      vx = 0, vy = 0, on_ground = False, player_rect = mk_Rect a b 36 52\<rparr>"

datatype key = K_LEFT | K_a | K_RIGHT | K_d | K_SPACE | K_w | K_UP | K_ESCAPE | K_other

definition apply_input :: "Player \<Rightarrow> (key \<Rightarrow> bool) \<Rightarrow> real \<Rightarrow> Player" where
  "apply_input p keys dt =
     (let target_vx = 0;
          target_vx = (if keys K_LEFT \<or> keys K_a then target_vx - PLAYER_SPEED else target_vx);
          target_vx = (if keys K_RIGHT \<or> keys K_d then target_vx + PLAYER_SPEED else target_vx);
          accel = 2000
      in if vx p < target_vx then p\<lparr>vx := min (vx p + accel * dt) target_vx\<rparr>
         else if vx p > target_vx then p\<lparr>vx := max (vx p - accel * dt) target_vx\<rparr>
         else p)"

definition jump :: "Player \<Rightarrow> Player" where
  "jump p = (if on_ground p then p\<lparr>vy := - PLAYER_JUMP_VELOCITY, on_ground := False\<rparr> else p)"

definition physics :: "Player \<Rightarrow> real \<Rightarrow> Player" where
  "physics p dt =
     (let p = p\<lparr>vy := vy p + GRAVITY * dt\<rparr>;
          p = p\<lparr>vy := min (vy p) 2000\<rparr>;
          p = p\<lparr>player_x := player_x p + vx p * dt\<rparr>;
          p = p\<lparr>player_y := player_y p + vy p * dt\<rparr>
      in p\<lparr>player_rect := (player_rect p)\<lparr>rect_x := py_int (player_x p),
                                             rect_y := py_int (player_y p)\<rparr>\<rparr>)"

section \<open>Collision resolution\<close>

text \<open>
  The body of the first loop of \<^verbatim>\<open>resolve_collisions\<close>, for one platform.
\<close>

definition vertical_step :: "Player \<Rightarrow> Platform \<Rightarrow> Player" where
  "vertical_step p q =
     (if colliderect (player_rect p) (plat_rect q) then
        (let p = (if vy p > 0 then
                    p\<lparr>player_rect := set_bottom (player_rect p) (rect_top (plat_rect q)),
                      on_ground := True\<rparr>
                  else if vy p < 0 then
                    p\<lparr>player_rect := set_top (player_rect p) (rect_bottom (plat_rect q))\<rparr>
                  else p);
             p = p\<lparr>vy := 0\<rparr>
         in p\<lparr>player_y := of_int (rect_y (player_rect p))\<rparr>)
      else p)"

definition vertical_pass :: "Player \<Rightarrow> Platform list \<Rightarrow> real \<Rightarrow> Player" where
  "vertical_pass p platforms dt =
     (let p = p\<lparr>player_rect := (player_rect p)\<lparr>rect_y := rect_y (player_rect p) + py_int (vy p * dt)\<rparr>\<rparr>;
          p = p\<lparr>on_ground := False\<rparr>
      in foldl vertical_step p platforms)"

text \<open>The body of the second loop, for one platform.\<close>

definition horizontal_step :: "Player \<Rightarrow> Platform \<Rightarrow> Player" where
  "horizontal_step p q =
     (if colliderect (player_rect p) (plat_rect q)
      then p\<lparr>player_y := of_int (SCREEN_HEIGHT + 1000)\<rparr> else p)"

definition horizontal_pass :: "Player \<Rightarrow> Platform list \<Rightarrow> real \<Rightarrow> Player" where
  "horizontal_pass p platforms dt =
     (let p = p\<lparr>player_rect := (player_rect p)\<lparr>rect_x := rect_x (player_rect p) + py_int (vx p * dt)\<rparr>\<rparr>
      in foldl horizontal_step p platforms)"

definition resolve_collisions :: "Player \<Rightarrow> Platform list \<Rightarrow> real \<Rightarrow> Player" where
  "resolve_collisions p platforms dt = horizontal_pass (vertical_pass p platforms dt) platforms dt"

section \<open>Random source\<close>

text \<open>
  Python's \<^verbatim>\<open>random\<close> module is a process-wide generator. It is modelled as an
  explicit stream of raw draws that is threaded through every call:
  \<^verbatim>\<open>randint(a, b)\<close> maps a draw into the closed range \<open>[a, b]\<close>, and
  \<^verbatim>\<open>random()\<close> returns a 53-bit fraction in \<open>[0, 1)\<close>.
\<close>

type_synonym rng = "nat \<Rightarrow> nat"

definition rng_next :: "rng \<Rightarrow> rng" where
  "rng_next g = (\<lambda>n. g (Suc n))"

definition randint :: "int \<Rightarrow> int \<Rightarrow> rng \<Rightarrow> int \<times> rng" where
  "randint a b g = (a + int (g 0 mod nat (b - a + 1)), rng_next g)"

definition random :: "rng \<Rightarrow> real \<times> rng" where
  "random g = (real (g 0 mod 2 ^ 53) / 2 ^ 53, rng_next g)"

section \<open>World\<close>

record World =
  platforms :: "Platform list"
  max_x :: int

definition World_init :: World where
  "World_init =
     (let ground = Platform_init (- 1000) (SCREEN_HEIGHT - 40) 1500 80 False
      in \<lparr>platforms = [] @ [ground], max_x = plat_x ground + plat_w ground\<rparr>)"

definition get_last_y :: "World \<Rightarrow> int" where
  "get_last_y w = (if platforms w \<noteq> [] then plat_y (last (platforms w)) else SCREEN_HEIGHT - 200)"

text \<open>One iteration of the loop of \<^verbatim>\<open>generate_until\<close>.\<close>

definition generate_one :: "World \<Rightarrow> rng \<Rightarrow> World \<times> rng" where
  "generate_one w g =
     (let last_x = max_x w;
          (width, g) = randint PLATFORM_MIN_WIDTH PLATFORM_MAX_WIDTH g;
          (gap, g) = randint PLATFORM_MIN_GAP PLATFORM_MAX_GAP g;
          (dy, g) = randint (- 120) 120 g;
          new_y = max PLATFORM_MIN_Y (min PLATFORM_MAX_Y (get_last_y w + dy));
          (r, g) = random g;
          temp = (r < TEMP_PLATFORM_CHANCE);
          p = Platform_init (last_x + gap) new_y width 20 temp
      in (\<lparr>platforms = platforms w @ [p], max_x = plat_x p + plat_w p\<rparr>, g))"

function generate_until :: "World \<Rightarrow> real \<Rightarrow> rng \<Rightarrow> World \<times> rng" where
  "generate_until w limit_x g =
     (if of_int (max_x w) < limit_x
      then (case generate_one w g of (w', g') \<Rightarrow> generate_until w' limit_x g')
      else (w, g))"
  by pat_completeness auto
termination
proof (relation "measure (\<lambda>(w, limit_x, g). nat \<lceil>limit_x - of_int (max_x w)\<rceil>)")
  show "wf (measure (\<lambda>(w, limit_x, g). nat \<lceil>limit_x - of_int (max_x w)\<rceil>))"
    by simp
next
  fix w :: World and limit_x :: real and g :: rng and w' g'
  assume lt: "of_int (max_x w) < limit_x" and p: "(w', g') = generate_one w g"
  have "max_x w + 120 \<le> max_x (fst (generate_one w g))"
    by (simp add: generate_one_def randint_def random_def Platform_init_def Let_def
        PLATFORM_MIN_WIDTH_def PLATFORM_MIN_GAP_def split: prod.splits)
  then have "max_x w + 120 \<le> max_x w'"
    using p by (metis fst_conv)
  then have "limit_x - of_int (max_x w') \<le> limit_x - of_int (max_x w) - 120"
    by simp
  then have "\<lceil>limit_x - of_int (max_x w')\<rceil> \<le> \<lceil>limit_x - of_int (max_x w)\<rceil> - 120"
    by (metis ceiling_diff_numeral ceiling_mono)
  moreover have "0 < \<lceil>limit_x - of_int (max_x w)\<rceil>"
    using lt by (simp add: less_ceiling_iff)
  ultimately show "((w', limit_x, g'), (w, limit_x, g))
      \<in> measure (\<lambda>(w, limit_x, g). nat \<lceil>limit_x - of_int (max_x w)\<rceil>)"
    by simp
qed

text \<open>The loop body of \<^verbatim>\<open>World.update\<close> for one platform.\<close>

definition update_platform :: "real \<Rightarrow> Player \<Rightarrow> Platform \<Rightarrow> Platform" where
  "update_platform dt player p =
     (if temporary p then
        (let p = (if colliderect (player_rect player) (plat_rect p)
                  then p\<lparr>activated := True\<rparr> else p)
         in if activated p then p\<lparr>timer := timer p + dt\<rparr> else p)
      else p)"

definition expired :: "Platform \<Rightarrow> bool" where
  "expired p = (temporary p \<and> activated p \<and> timer p \<ge> TEMP_PLATFORM_LIFETIME)"

definition update :: "World \<Rightarrow> real \<Rightarrow> Player \<Rightarrow> World" where
  "update w dt player =
     (let w = w\<lparr>platforms := map (update_platform dt player) (platforms w)\<rparr>
      in w\<lparr>platforms := filter (\<lambda>p. \<not> expired p) (platforms w)\<rparr>)"

definition cleanup :: "World \<Rightarrow> real \<Rightarrow> World" where
  "cleanup w cam_x =
     w\<lparr>platforms := filter (\<lambda>p. of_int (plat_x p + plat_w p) > cam_x - of_int CLEANUP_BEHIND)
                        (platforms w)\<rparr>"

section \<open>Main loop\<close>

text \<open>
  The local variables of \<^verbatim>\<open>main\<close> form the game state. What one pass of the
  \<^verbatim>\<open>while running\<close> loop reads from pygame is its input: the milliseconds returned
  by \<^verbatim>\<open>clock.tick\<close>, the queued events and the pressed keys. Drawing reads the
  state without changing it and is left out; the score drawn in a pass is the value of
  \<open>score\<close> at its end.
\<close>

record Game =
  running :: bool
  in_menu :: bool
  highscore :: int
  score :: int
  player :: Player
  world :: World
  camera_x :: real
  rand :: rng

datatype event = QUIT | KEYDOWN key | OTHER_EVENT

record Frame =
  tick_ms :: nat
  events :: "event list"
  pressed :: "key \<Rightarrow> bool"

text \<open>Python's \<^verbatim>\<open>a // b\<close> on floats: the floor of the quotient, as a float.\<close>

definition py_floordiv :: "real \<Rightarrow> real \<Rightarrow> real" where
  "py_floordiv a b = of_int \<lfloor>a / b\<rfloor>"

definition Game_init :: "rng \<Rightarrow> Game" where
  "Game_init g =
     \<lparr>running = True, in_menu = False, highscore = 0, score = 0,
      player = Player_init 120 (SCREEN_HEIGHT - 180), world = World_init,
      camera_x = 0, rand = g\<rparr>"

definition handle_event :: "Game \<Rightarrow> event \<Rightarrow> Game" where
  "handle_event s e =
     (case e of
        QUIT \<Rightarrow> s\<lparr>running := False\<rparr>
      | KEYDOWN k \<Rightarrow>
          (let s = (if k = K_ESCAPE then s\<lparr>running := False\<rparr> else s)
           in if in_menu s \<and> k = K_SPACE
              then s\<lparr>in_menu := False, player := Player_init 120 (SCREEN_HEIGHT - 180),
                     world := World_init, camera_x := 0, score := 0\<rparr>
              else s)
      | OTHER_EVENT \<Rightarrow> s)"

definition tick :: "Game \<Rightarrow> (key \<Rightarrow> bool) \<Rightarrow> real \<Rightarrow> Game" where
  "tick s keys dt =
     (let p = player s;
          p = (if keys K_SPACE \<or> keys K_w \<or> keys K_UP then jump p else p);
          p = apply_input p keys dt;
          p = physics p dt;
          p = resolve_collisions p (platforms (world s)) dt;
          (w, g) = generate_until (world s) (camera_x s + of_int GEN_AHEAD) (rand s);
          w = update w dt p;
          w = cleanup w (camera_x s);
          target_cam = player_x p - of_int SCREEN_WIDTH * (3 / 10);
          cam = camera_x s + (target_cam - camera_x s) * min 1 (8 * dt);
          s = s\<lparr>player := p, world := w, rand := g, camera_x := cam,
                score := py_int (py_floordiv (player_x p) 10)\<rparr>
      in if player_y p > of_int (SCREEN_HEIGHT + 400)
         then s\<lparr>highscore := max (highscore s) (score s), in_menu := True\<rparr>
         else s)"

definition frame :: "Game \<Rightarrow> Frame \<Rightarrow> Game" where
  "frame s f =
     (let dt = real (tick_ms f) / 1000;
          s = foldl handle_event s (events f)
      in if \<not> in_menu s then tick s (pressed f) dt else s)"

fun main_loop :: "Game \<Rightarrow> Frame list \<Rightarrow> Game" where
  "main_loop s [] = s"
| "main_loop s (f # fs) = (if running s then main_loop (frame s f) fs else s)"

section \<open>Sequences of calls and scenarios\<close>

text \<open>A sequence of \<^verbatim>\<open>generate_until\<close> calls on one world, sharing the random source.\<close>

fun generate_seq :: "World \<Rightarrow> real list \<Rightarrow> rng \<Rightarrow> World \<times> rng" where
  "generate_seq w [] g = (w, g)"
| "generate_seq w (limit_x # ls) g =
     (case generate_until w limit_x g of (w', g') \<Rightarrow> generate_seq w' ls g')"

text \<open>A sequence of \<^verbatim>\<open>World.update\<close> calls, each with its own \<open>dt\<close> and player.\<close>

definition update_seq :: "World \<Rightarrow> (real \<times> Player) list \<Rightarrow> World" where
  "update_seq w calls = foldl (\<lambda>w (dt, pl). update w dt pl) w calls"

definition right_edge :: "Platform \<Rightarrow> int" where
  "right_edge p = plat_x p + plat_w p"

text \<open>The invariant that generation maintains, used in the proofs below.\<close>

definition gen_inv :: "World \<Rightarrow> bool" where
  "gen_inv w =
     (platforms w \<noteq> [] \<and> max_x w = right_edge (last (platforms w))
      \<and> list_all (\<lambda>p. right_edge p \<le> max_x w \<and> 0 < plat_w p) (platforms w)
      \<and> sorted_wrt (\<lambda>p q. right_edge p + PLATFORM_MIN_GAP \<le> plat_x q) (platforms w))"

text \<open>The state right after the restart branch of the event loop.\<close>

definition fresh_round :: "Game \<Rightarrow> bool" where
  "fresh_round s =
     (\<not> in_menu s \<and> score s = 0 \<and> player s = Player_init 120 (SCREEN_HEIGHT - 180)
      \<and> world s = World_init \<and> camera_x s = 0)"

text \<open>
  A player standing on the ground platform of a fresh world: the ground's top edge is at
  \<open>520\<close>, the player is \<open>52\<close> high, so its box sits at \<open>y = 468\<close>.
\<close>

definition resting_player :: Player where
  "resting_player =
     \<lparr>player_x = 120, player_y = 468, player_w = 36, player_h = 52, vx = 0, vy = 0,
      on_ground = True, player_rect = mk_Rect 120 468 36 52\<rparr>"

text \<open>A player falling at 630 units per second onto two stacked platforms.\<close>

definition falling_player :: Player where
  "falling_player = (Player_init 0 0)\<lparr>vy := 630\<rparr>"

definition lower_platform :: Platform where
  "lower_platform = Platform_init 0 55 100 20 False"

definition upper_platform :: Platform where
  "upper_platform = Platform_init 0 50 100 20 False"

text \<open>A player running to the right at full speed towards the side of a platform.\<close>

definition running_player :: Player where
  "running_player = (Player_init 100 400)\<lparr>vx := 280\<rparr>"

definition wall_platform :: Platform where
  "wall_platform = Platform_init 140 420 100 20 False"

text \<open>A temporary platform under the spawn point, and repeated half-second updates.\<close>

definition temp_platform :: Platform where
  "temp_platform = Platform_init 100 400 100 20 True"

definition temp_world :: World where
  "temp_world = \<lparr>platforms = [temp_platform], max_x = 200\<rparr>"

definition half_second_calls :: "nat \<Rightarrow> (real \<times> Player) list" where
  "half_second_calls n = replicate n (1 / 2, Player_init 120 380)"

text \<open>Frames and a game-over state for the score scenarios.\<close>

definition idle_frame :: Frame where
  "idle_frame = \<lparr>tick_ms = 16, events = [], pressed = (\<lambda>k. False)\<rparr>"

definition restart_frame :: Frame where
  "restart_frame = \<lparr>tick_ms = 16, events = [KEYDOWN K_SPACE], pressed = (\<lambda>k. False)\<rparr>"

definition menu_state :: Game where
  "menu_state = (Game_init (\<lambda>n. 0))\<lparr>in_menu := True, score := 57\<rparr>"

section \<open>Player motion\<close>

text \<open>
  C6. For every \<open>dt \<ge> 0\<close> and every player state, the vertical velocity after
  \<open>physics\<close> is at most the maximum fall speed 2000.
\<close>

theorem physics_vy_clamped:
  assumes "0 \<le> dt"
  shows "vy (physics p dt) \<le> 2000"
  by (simp add: physics_def Let_def)

theorem physics_vy_clamped_witness:
  "(0::real) \<le> 1 / 60 \<and> vy (physics (Player_init 120 380) (1 / 60)) \<le> 2000"
  using physics_vy_clamped [of "1 / 60" "Player_init 120 380"] by simp

text \<open>
  C7. For every \<open>dt \<ge> 0\<close>, every previous horizontal velocity and every combination
  of pressed keys, the horizontal velocity after \<open>apply_input\<close> lies between the
  velocity before the call and the target velocity, where the target is \<open>-280\<close> for
  left only, \<open>280\<close> for right only, and \<open>0\<close> when neither or both directions are
  pressed. Nothing else of the player changes.
\<close>

theorem apply_input_no_overshoot:
  assumes "0 \<le> dt"
  shows "(let left = (keys K_LEFT \<or> keys K_a); right = (keys K_RIGHT \<or> keys K_d);
              target = (if left \<and> \<not> right then - 280 else if right \<and> \<not> left then 280 else 0);
              p' = apply_input p keys dt
          in min (vx p) target \<le> vx p' \<and> vx p' \<le> max (vx p) target \<and> p' = p\<lparr>vx := vx p'\<rparr>)"
  using assms by (simp add: apply_input_def Let_def PLAYER_SPEED_def)

theorem apply_input_no_overshoot_witness:
  "(0::real) \<le> 1 / 60 \<and>
   (let left = (K_RIGHT = K_LEFT \<or> K_RIGHT = K_a); right = (K_RIGHT = K_RIGHT \<or> K_RIGHT = K_d);
        target = (if left \<and> \<not> right then - 280 else if right \<and> \<not> left then 280 else 0);
        p' = apply_input (Player_init 120 380) (\<lambda>k. K_RIGHT = k) (1 / 60)
    in min (vx (Player_init 120 380)) target \<le> vx p' \<and> vx p' \<le> max (vx (Player_init 120 380)) target
       \<and> p' = (Player_init 120 380)\<lparr>vx := vx p'\<rparr>)"
  using apply_input_no_overshoot [of "1 / 60" "\<lambda>k. K_RIGHT = k" "Player_init 120 380"] by simp

section \<open>Cleanup\<close>

text \<open>
  C8. For every world and every camera position, calling \<open>cleanup\<close> twice with the
  same camera position yields the same platforms (indeed the same world) as calling it
  once.
\<close>

theorem cleanup_idempotent:
  "cleanup (cleanup w cam_x) cam_x = cleanup w cam_x"
  by (simp add: cleanup_def)

section \<open>Collision resolution: the two passes\<close>

lemma foldl_vertical_step_none:
  "\<forall>q\<in>set ps. \<not> colliderect (player_rect p) (plat_rect q) \<Longrightarrow> foldl vertical_step p ps = p"
  by (induction ps) (simp_all add: vertical_step_def)

lemma vertical_step_settled:
  "vy p = 0 \<Longrightarrow> player_y p = of_int (rect_y (player_rect p)) \<Longrightarrow> vertical_step p q = p"
  by (simp add: vertical_step_def Let_def)

lemma foldl_vertical_step_settled:
  "vy p = 0 \<Longrightarrow> player_y p = of_int (rect_y (player_rect p)) \<Longrightarrow> foldl vertical_step p ps = p"
  by (induction ps) (simp_all add: vertical_step_settled)

lemma foldl_horizontal_step:
  "foldl horizontal_step p ps =
     (if \<exists>q\<in>set ps. colliderect (player_rect p) (plat_rect q)
      then p\<lparr>player_y := of_int (SCREEN_HEIGHT + 1000)\<rparr> else p)"
proof (induction ps rule: rev_induct)
  case Nil
  show ?case by simp
next
  case (snoc q ps)
  have "foldl horizontal_step p (ps @ [q]) = horizontal_step (foldl horizontal_step p ps) q"
    by simp
  also have "\<dots> = horizontal_step
      (if \<exists>q\<in>set ps. colliderect (player_rect p) (plat_rect q)
       then p\<lparr>player_y := of_int (SCREEN_HEIGHT + 1000)\<rparr> else p) q"
    by (simp only: snoc)
  also have "\<dots> = (if \<exists>q\<in>set (ps @ [q]). colliderect (player_rect p) (plat_rect q)
      then p\<lparr>player_y := of_int (SCREEN_HEIGHT + 1000)\<rparr> else p)"
    by (auto simp: horizontal_step_def)
  finally show ?case .
qed

lemma vertical_step_keeps:
  "vx (vertical_step p q) = vx p \<and> player_x (vertical_step p q) = player_x p
   \<and> rect_x (player_rect (vertical_step p q)) = rect_x (player_rect p)"
  by (simp add: vertical_step_def Let_def set_bottom_def set_top_def)

lemma foldl_vertical_step_keeps:
  "vx (foldl vertical_step p ps) = vx p \<and> player_x (foldl vertical_step p ps) = player_x p
   \<and> rect_x (player_rect (foldl vertical_step p ps)) = rect_x (player_rect p)"
  by (induction ps arbitrary: p) (simp_all add: vertical_step_keeps)

lemma vertical_pass_keeps:
  "vx (vertical_pass p ps dt) = vx p \<and> player_x (vertical_pass p ps dt) = player_x p
   \<and> rect_x (player_rect (vertical_pass p ps dt)) = rect_x (player_rect p)"
  by (simp add: vertical_pass_def Let_def foldl_vertical_step_keeps)

lemmas scenario_defs =
  resting_player_def falling_player_def lower_platform_def upper_platform_def
  running_player_def wall_platform_def Player_init_def Platform_init_def World_init_def

lemmas collision_defs =
  resolve_collisions_def vertical_pass_def horizontal_pass_def vertical_step_def
  horizontal_step_def colliderect_def set_bottom_def set_top_def rect_top_def rect_bottom_def
  mk_Rect_def py_int_def

text \<open>
  C10. If no platform overlaps the player's box after the vertical displacement, and
  none overlaps it after the horizontal displacement either, then \<open>resolve_collisions\<close>
  leaves \<open>x\<close>, \<open>y\<close>, \<open>vx\<close> and \<open>vy\<close> unchanged and sets \<open>on_ground\<close> to false; only the
  position of the box changes.
\<close>

theorem resolve_collisions_frame:
  assumes "\<forall>q\<in>set ps. \<not> colliderect
             ((player_rect p)\<lparr>rect_y := rect_y (player_rect p) + py_int (vy p * dt)\<rparr>) (plat_rect q)"
    and "\<forall>q\<in>set ps. \<not> colliderect
             ((player_rect p)\<lparr>rect_y := rect_y (player_rect p) + py_int (vy p * dt),
                               rect_x := rect_x (player_rect p) + py_int (vx p * dt)\<rparr>) (plat_rect q)"
  shows "resolve_collisions p ps dt =
           p\<lparr>on_ground := False,
             player_rect := (player_rect p)\<lparr>rect_y := rect_y (player_rect p) + py_int (vy p * dt),
                                             rect_x := rect_x (player_rect p) + py_int (vx p * dt)\<rparr>\<rparr>"
proof -
  have v: "vertical_pass p ps dt =
      p\<lparr>player_rect := (player_rect p)\<lparr>rect_y := rect_y (player_rect p) + py_int (vy p * dt)\<rparr>,
        on_ground := False\<rparr>"
    using assms(1) by (simp add: vertical_pass_def Let_def foldl_vertical_step_none)
  show ?thesis
    using assms(2) by (simp add: resolve_collisions_def v horizontal_pass_def Let_def foldl_horizontal_step)
qed

theorem resolve_collisions_frame_witness:
  "platforms World_init = [Platform_init (- 1000) 520 1500 80 False]
   \<and> \<not> colliderect
        ((player_rect (Player_init 120 380))
           \<lparr>rect_y := rect_y (player_rect (Player_init 120 380)) + py_int (vy (Player_init 120 380) * (1 / 60))\<rparr>)
        (plat_rect (Platform_init (- 1000) 520 1500 80 False))
   \<and> \<not> colliderect
        ((player_rect (Player_init 120 380))
           \<lparr>rect_y := rect_y (player_rect (Player_init 120 380)) + py_int (vy (Player_init 120 380) * (1 / 60)),
             rect_x := rect_x (player_rect (Player_init 120 380)) + py_int (vx (Player_init 120 380) * (1 / 60))\<rparr>)
        (plat_rect (Platform_init (- 1000) 520 1500 80 False))
   \<and> resolve_collisions (Player_init 120 380) (platforms World_init) (1 / 60) =
        (Player_init 120 380)\<lparr>on_ground := False, player_rect := mk_Rect 120 380 36 52\<rparr>"
  using resolve_collisions_frame [of "platforms World_init" "Player_init 120 380" "1 / 60"]
  by (simp add: scenario_defs colliderect_def mk_Rect_def py_int_def SCREEN_HEIGHT_def)

text \<open>
  C4. After the horizontal displacement \<open>vx * dt\<close> has been applied to the box left by
  the vertical pass, if the box overlaps any platform then the player's \<open>y\<close> becomes
  \<open>SCREEN_HEIGHT + 1000\<close>, which is beyond the death threshold \<open>SCREEN_HEIGHT + 400\<close>;
  \<open>vx\<close> and \<open>x\<close> are unchanged and the box stays where the displacement put it.
\<close>

theorem lateral_collision_lethal:
  assumes "\<exists>q\<in>set ps. colliderect
             ((player_rect (vertical_pass p ps dt))
                \<lparr>rect_x := rect_x (player_rect (vertical_pass p ps dt)) + py_int (vx p * dt)\<rparr>)
             (plat_rect q)"
  shows "resolve_collisions p ps dt =
           (vertical_pass p ps dt)
             \<lparr>player_rect := (player_rect (vertical_pass p ps dt))
                \<lparr>rect_x := rect_x (player_rect p) + py_int (vx p * dt)\<rparr>,
              player_y := of_int (SCREEN_HEIGHT + 1000)\<rparr>
         \<and> player_y (resolve_collisions p ps dt) > of_int (SCREEN_HEIGHT + 400)
         \<and> vx (resolve_collisions p ps dt) = vx p
         \<and> player_x (resolve_collisions p ps dt) = player_x p"
  using assms
  by (simp add: resolve_collisions_def horizontal_pass_def Let_def foldl_horizontal_step
      vertical_pass_keeps SCREEN_HEIGHT_def)

theorem lateral_collision_lethal_witness:
  "(\<exists>q\<in>set [wall_platform]. colliderect
        ((player_rect (vertical_pass running_player [wall_platform] (1 / 10)))
           \<lparr>rect_x := rect_x (player_rect (vertical_pass running_player [wall_platform] (1 / 10)))
                       + py_int (vx running_player * (1 / 10))\<rparr>)
        (plat_rect q))
   \<and> player_y (resolve_collisions running_player [wall_platform] (1 / 10)) = 1560
   \<and> vx (resolve_collisions running_player [wall_platform] (1 / 10)) = 280
   \<and> player_x (resolve_collisions running_player [wall_platform] (1 / 10)) = 100
   \<and> player_rect (resolve_collisions running_player [wall_platform] (1 / 10)) = mk_Rect 128 400 36 52"
proof -
  have v: "vertical_pass running_player [wall_platform] (1 / 10) = running_player"
    by (simp add: scenario_defs vertical_pass_def vertical_step_def colliderect_def mk_Rect_def
        py_int_def Let_def)
  have h: "\<exists>q\<in>set [wall_platform]. colliderect
        ((player_rect (vertical_pass running_player [wall_platform] (1 / 10)))
           \<lparr>rect_x := rect_x (player_rect (vertical_pass running_player [wall_platform] (1 / 10)))
                       + py_int (vx running_player * (1 / 10))\<rparr>)
        (plat_rect q)"
    by (simp add: v) (simp add: scenario_defs colliderect_def mk_Rect_def py_int_def)
  show ?thesis
    using h lateral_collision_lethal [OF h]
    by (simp add: v) (simp add: scenario_defs mk_Rect_def py_int_def SCREEN_HEIGHT_def)
qed

section \<open>Collision resolution: which platform decides\<close>

text \<open>
  The claim C3 as stated, that the last overlapping platform in iteration order decides
  the snapped position, fails: a player falling onto two stacked platforms that both
  overlap the displaced box (and the second still overlaps the box after the first snap)
  ends on the top edge of the first platform, not of the last.
\<close>

theorem vertical_last_overlap_counterexample:
  "colliderect ((player_rect falling_player)
       \<lparr>rect_y := rect_y (player_rect falling_player) + py_int (vy falling_player * (1 / 60))\<rparr>)
     (plat_rect lower_platform)
   \<and> colliderect ((player_rect falling_player)
       \<lparr>rect_y := rect_y (player_rect falling_player) + py_int (vy falling_player * (1 / 60))\<rparr>)
     (plat_rect upper_platform)
   \<and> colliderect (player_rect (vertical_step
         (falling_player\<lparr>player_rect := (player_rect falling_player)
            \<lparr>rect_y := rect_y (player_rect falling_player) + py_int (vy falling_player * (1 / 60))\<rparr>,
            on_ground := False\<rparr>) lower_platform))
     (plat_rect upper_platform)
   \<and> vy falling_player > 0
   \<and> rect_bottom (player_rect (resolve_collisions falling_player [lower_platform, upper_platform] (1 / 60)))
       = rect_top (plat_rect lower_platform)
   \<and> rect_bottom (player_rect (resolve_collisions falling_player [lower_platform, upper_platform] (1 / 60)))
       \<noteq> rect_top (plat_rect upper_platform)"
  by (simp add: scenario_defs collision_defs Let_def)

text \<open>
  C3, amended. \<open>resolve_collisions\<close> first applies the vertical displacement to the box
  and clears \<open>on_ground\<close>. The first platform in stored order that overlaps the displaced
  box decides the outcome: when falling, the bottom edge is snapped to its top edge and
  \<open>on_ground\<close> is set; when rising, the top edge is snapped to its bottom edge; when
  \<open>vy\<close> is zero the box is not moved. In all three cases \<open>vy\<close> becomes zero and \<open>y\<close>
  becomes the box's \<open>y\<close>. Platforms later in the order never move the box, because \<open>vy\<close>
  is already zero when they are tested.
\<close>

theorem vertical_pass_first_overlap:
  assumes "box = (player_rect p)\<lparr>rect_y := rect_y (player_rect p) + py_int (vy p * dt)\<rparr>"
    and "ps = pre @ q # post"
    and "\<forall>r\<in>set pre. \<not> colliderect box (plat_rect r)"
    and "colliderect box (plat_rect q)"
  shows "vertical_pass p ps dt =
           (if vy p > 0 then
              p\<lparr>player_rect := set_bottom box (rect_top (plat_rect q)), on_ground := True,
                vy := 0, player_y := of_int (rect_top (plat_rect q) - rect_h box)\<rparr>
            else if vy p < 0 then
              p\<lparr>player_rect := set_top box (rect_bottom (plat_rect q)), on_ground := False,
                vy := 0, player_y := of_int (rect_bottom (plat_rect q))\<rparr>
            else
              p\<lparr>player_rect := box, on_ground := False,
                vy := 0, player_y := of_int (rect_y box)\<rparr>)"
proof -
  define p1 where "p1 = p\<lparr>player_rect := box, on_ground := False\<rparr>"
  define p2 where "p2 = vertical_step p1 q"
  have start: "vertical_pass p ps dt = foldl vertical_step p1 ps"
    by (simp add: vertical_pass_def Let_def assms(1) p1_def)
  have pre: "foldl vertical_step p1 pre = p1"
    using assms(3) by (simp add: foldl_vertical_step_none p1_def)
  have p2: "p2 =
      (if vy p > 0 then
         p\<lparr>player_rect := set_bottom box (rect_top (plat_rect q)), on_ground := True,
           vy := 0, player_y := of_int (rect_top (plat_rect q) - rect_h box)\<rparr>
       else if vy p < 0 then
         p\<lparr>player_rect := set_top box (rect_bottom (plat_rect q)), on_ground := False,
           vy := 0, player_y := of_int (rect_bottom (plat_rect q))\<rparr>
       else
         p\<lparr>player_rect := box, on_ground := False,
           vy := 0, player_y := of_int (rect_y box)\<rparr>)"
    using assms(4) by (simp add: p2_def p1_def vertical_step_def Let_def set_bottom_def set_top_def)
  have settled: "vy p2 = 0 \<and> player_y p2 = of_int (rect_y (player_rect p2))"
    by (simp add: p2 set_bottom_def set_top_def)
  have "foldl vertical_step p1 ps = foldl vertical_step p2 post"
    using pre by (simp add: assms(2) p2_def)
  also have "\<dots> = p2"
    using settled by (simp add: foldl_vertical_step_settled)
  finally show ?thesis
    using start p2 by simp
qed

theorem vertical_pass_first_overlap_witness:
  "colliderect (mk_Rect 0 10 36 52) (plat_rect lower_platform)
   \<and> vertical_pass falling_player [lower_platform, upper_platform] (1 / 60) =
       falling_player\<lparr>player_rect := mk_Rect 0 3 36 52, on_ground := True, vy := 0, player_y := 3\<rparr>"
proof -
  have b: "mk_Rect 0 10 36 52 = (player_rect falling_player)
      \<lparr>rect_y := rect_y (player_rect falling_player) + py_int (vy falling_player * (1 / 60))\<rparr>"
    by (simp add: scenario_defs mk_Rect_def py_int_def)
  have l: "[lower_platform, upper_platform] = [] @ lower_platform # [upper_platform]"
    by simp
  have n: "\<forall>r\<in>set []. \<not> colliderect (mk_Rect 0 10 36 52) (plat_rect r)"
    by simp
  have c: "colliderect (mk_Rect 0 10 36 52) (plat_rect lower_platform)"
    by (simp add: scenario_defs colliderect_def mk_Rect_def)
  show ?thesis
    using c vertical_pass_first_overlap [OF b l n c]
    by (simp add: scenario_defs mk_Rect_def set_bottom_def rect_top_def)
qed

section \<open>Resting on the ground\<close>

text \<open>
  The claim C2 as stated fails: for a player at rest on the ground platform, one tick
  with \<open>dt = 1/60\<close> moves the box by \<open>int(0.55\<dots>) = 0\<close>, so the box only touches the
  platform, no overlap is found, \<open>on_ground\<close> is left false and \<open>vy\<close> keeps the
  gravity it gained.
\<close>

theorem resting_tick_counterexample:
  "on_ground resting_player \<and> vy resting_player = 0
   \<and> rect_bottom (player_rect resting_player) = rect_top (plat_rect (hd (platforms World_init)))
   \<and> \<not> on_ground (resolve_collisions (physics resting_player (1 / 60)) (platforms World_init) (1 / 60))
   \<and> vy (resolve_collisions (physics resting_player (1 / 60)) (platforms World_init) (1 / 60)) = 100 / 3"
  by (simp add: scenario_defs physics_def collision_defs Let_def GRAVITY_def SCREEN_HEIGHT_def)

text \<open>
  C2, amended. If the player is at rest on the ground platform of a fresh world
  (\<open>vx = vy = 0\<close>, \<open>on_ground\<close>, \<open>y = 468\<close> so that the bottom edge of its 36 by 52 box
  coincides with the platform's top edge, and the box within the platform's horizontal
  extent), then after one tick with no input and \<open>dt = 1/60\<close> the flag \<open>on_ground\<close> is
  false and \<open>vy = 100/3\<close>; after a second such tick \<open>on_ground\<close> is true, \<open>vy = 0\<close> and
  the player is back at \<open>y = 468\<close> with its bottom edge on the platform's top edge.
\<close>

theorem resting_two_ticks:
  assumes "on_ground p" and "vx p = 0" and "vy p = 0" and "player_y p = 468"
    and "rect_w (player_rect p) = 36" and "rect_h (player_rect p) = 52"
    and "- 1036 < py_int (player_x p)" and "py_int (player_x p) < 500"
    and "p1 = resolve_collisions (physics p (1 / 60)) (platforms World_init) (1 / 60)"
    and "p2 = resolve_collisions (physics p1 (1 / 60)) (platforms World_init) (1 / 60)"
  shows "\<not> on_ground p1 \<and> vy p1 = 100 / 3
       \<and> on_ground p2 \<and> vy p2 = 0 \<and> player_y p2 = 468
       \<and> rect_bottom (player_rect p2) = rect_top (plat_rect (hd (platforms World_init)))"
proof -
  have f1: "py_int (468 + 5 / 9) = 468" "py_int (100 / 3 * (1 / 60)) = 0" "py_int 0 = 0"
    by (simp_all add: py_int_def)
  have ph1: "physics p (1 / 60) =
      p\<lparr>vy := 100 / 3, player_y := 468 + 5 / 9,
        player_rect := (player_rect p)\<lparr>rect_x := py_int (player_x p), rect_y := 468\<rparr>\<rparr>"
    using assms(2-4) f1 by (simp add: physics_def Let_def GRAVITY_def)
  have p1: "p1 = p\<lparr>vy := 100 / 3, player_y := 468 + 5 / 9, on_ground := False,
        player_rect := (player_rect p)\<lparr>rect_y := 468, rect_x := py_int (player_x p)\<rparr>\<rparr>"
    using assms(2,5,6) f1
    by (simp add: assms(9) ph1 World_init_def Platform_init_def Let_def SCREEN_HEIGHT_def
        resolve_collisions_def vertical_pass_def horizontal_pass_def vertical_step_def
        horizontal_step_def colliderect_def mk_Rect_def)
  have f2: "py_int (468 + 5 / 9 + 200 / 3 * (1 / 60)) = 469" "py_int (200 / 3 * (1 / 60)) = 1"
    by (simp_all add: py_int_def)
  have ph2: "physics p1 (1 / 60) =
      p\<lparr>vy := 200 / 3, player_y := 468 + 5 / 9 + 200 / 3 * (1 / 60), on_ground := False,
        player_rect := (player_rect p)\<lparr>rect_x := py_int (player_x p), rect_y := 469\<rparr>\<rparr>"
    using assms(2) f2 by (simp add: p1 physics_def Let_def GRAVITY_def)
  have p2: "p2 = p\<lparr>vy := 0, player_y := 468, on_ground := True,
        player_rect := (player_rect p)\<lparr>rect_y := 468, rect_x := py_int (player_x p)\<rparr>\<rparr>"
    using assms(2,5,6,7,8) f2 f1(3)
    by (simp add: assms(10) ph2 World_init_def Platform_init_def Let_def SCREEN_HEIGHT_def
        resolve_collisions_def vertical_pass_def horizontal_pass_def vertical_step_def
        horizontal_step_def colliderect_def mk_Rect_def set_bottom_def rect_top_def)
  show ?thesis
    using assms(6) by (simp add: p1 p2 rect_bottom_def rect_top_def World_init_def Platform_init_def
        mk_Rect_def Let_def SCREEN_HEIGHT_def)
qed

theorem resting_two_ticks_witness:
  "on_ground resting_player \<and> vx resting_player = 0 \<and> vy resting_player = 0
   \<and> player_y resting_player = 468
   \<and> rect_w (player_rect resting_player) = 36 \<and> rect_h (player_rect resting_player) = 52
   \<and> - 1036 < py_int (player_x resting_player) \<and> py_int (player_x resting_player) < 500
   \<and> \<not> on_ground (resolve_collisions (physics resting_player (1 / 60)) (platforms World_init) (1 / 60))
   \<and> on_ground (resolve_collisions
        (physics (resolve_collisions (physics resting_player (1 / 60)) (platforms World_init) (1 / 60)) (1 / 60))
        (platforms World_init) (1 / 60))
   \<and> vy (resolve_collisions
        (physics (resolve_collisions (physics resting_player (1 / 60)) (platforms World_init) (1 / 60)) (1 / 60))
        (platforms World_init) (1 / 60)) = 0"
proof -
  have h: "on_ground resting_player" "vx resting_player = 0" "vy resting_player = 0"
    "player_y resting_player = 468"
    "rect_w (player_rect resting_player) = 36" "rect_h (player_rect resting_player) = 52"
    "- 1036 < py_int (player_x resting_player)" "py_int (player_x resting_player) < 500"
    by (simp_all add: resting_player_def mk_Rect_def py_int_def)
  show ?thesis
    using h resting_two_ticks [OF h refl refl] by blast
qed

section \<open>Temporary platforms\<close>

lemma update_platform_untouched:
  "\<not> activated p \<Longrightarrow> \<not> colliderect (player_rect pl) (plat_rect p) \<Longrightarrow>
     update_platform dt pl p = p"
  by (simp add: update_platform_def Let_def)

lemma update_platform_touched:
  "temporary p \<Longrightarrow> colliderect (player_rect pl) (plat_rect p) \<Longrightarrow>
     update_platform dt pl p = p\<lparr>activated := True, timer := timer p + dt\<rparr>"
  by (simp add: update_platform_def Let_def)

lemma update_keeps_untouched:
  assumes "p \<in> set (platforms w)" and "\<not> activated p"
    and "\<not> colliderect (player_rect pl) (plat_rect p)"
  shows "p \<in> set (platforms (update w dt pl))"
proof -
  have "update_platform dt pl p = p"
    using assms(2,3) by (rule update_platform_untouched)
  then have "p \<in> update_platform dt pl ` set (platforms w)"
    using assms(1) by (metis imageI)
  moreover have "\<not> expired p"
    using assms(2) by (simp add: expired_def)
  ultimately show ?thesis
    by (simp add: update_def Let_def)
qed

lemma update_seq_keeps_untouched:
  assumes "\<not> activated p"
    and "\<forall>c\<in>set calls. \<not> colliderect (player_rect (snd c)) (plat_rect p)"
  shows "p \<in> set (platforms w) \<Longrightarrow> p \<in> set (platforms (update_seq w calls))"
  using assms(2)
proof (induction calls arbitrary: w)
  case Nil
  then show ?case by (simp add: update_seq_def)
next
  case (Cons c calls)
  obtain dt pl where c: "c = (dt, pl)"
    by (cases c)
  have "p \<in> set (platforms (update w dt pl))"
    using Cons.prems assms(1) c by (intro update_keeps_untouched) auto
  then have "p \<in> set (platforms (update_seq (update w dt pl) calls))"
    using Cons.IH Cons.prems(2) by simp
  then show ?case
    by (simp add: update_seq_def c)
qed

lemma update_removes_exactly_expired:
  "platforms (update w dt pl) =
     filter (\<lambda>p. \<not> (temporary p \<and> activated p \<and> timer p \<ge> TEMP_PLATFORM_LIFETIME))
       (map (update_platform dt pl) (platforms w))"
  by (simp add: update_def expired_def Let_def)

lemma temp_platform_facts:
  "temporary temp_platform" "timer temp_platform = 2" "\<not> activated temp_platform"
  "colliderect (player_rect (Player_init 120 380)) (plat_rect temp_platform)"
  by (simp_all add: temp_platform_def Platform_init_def Player_init_def mk_Rect_def colliderect_def)

text \<open>
  C1. The claim says that an activated temporary platform is removed once 5.0 seconds have
  accumulated since activation, never before. In the code the timer of every platform
  starts at \<open>2.0\<close>, so the removal condition \<open>timer \<ge> 5\<close> is met after only 3.0
  seconds: a temporary platform that the player's box overlaps is still present (with
  \<open>timer = 4.5\<close>) after five updates of half a second and is gone after the sixth, when
  the time accumulated since activation is 3 seconds.
\<close>

theorem temporary_platform_gone_after_three_seconds:
  "colliderect (player_rect (Player_init 120 380)) (plat_rect temp_platform)
   \<and> timer temp_platform = 2
   \<and> platforms (update_seq temp_world (half_second_calls 5)) =
       [temp_platform\<lparr>activated := True, timer := 9 / 2\<rparr>]
   \<and> sum_list (map fst (half_second_calls 6)) = 3
   \<and> platforms (update_seq temp_world (half_second_calls 6)) = []"
  by (simp add: update_seq_def half_second_calls_def numeral_eq_Suc temp_world_def
      update_def update_platform_touched temp_platform_facts
      expired_def TEMP_PLATFORM_LIFETIME_def Let_def)

section \<open>Generation\<close>

lemma randint_range:
  assumes "a \<le> b"
  shows "a \<le> fst (randint a b g) \<and> fst (randint a b g) \<le> b"
proof -
  have "0 < nat (b - a + 1)"
    using assms by simp
  then have "g 0 mod nat (b - a + 1) < nat (b - a + 1)"
    by simp
  then show ?thesis
    by (simp add: randint_def)
qed

lemma gen_inv_init: "gen_inv World_init"
  by (simp add: gen_inv_def World_init_def Platform_init_def right_edge_def Let_def)

lemma generate_one_shape:
  "\<exists>width gap y t. PLATFORM_MIN_WIDTH \<le> width \<and> width \<le> PLATFORM_MAX_WIDTH
     \<and> PLATFORM_MIN_GAP \<le> gap \<and> gap \<le> PLATFORM_MAX_GAP
     \<and> PLATFORM_MIN_Y \<le> y \<and> y \<le> PLATFORM_MAX_Y
     \<and> fst (generate_one w g) =
         \<lparr>platforms = platforms w @ [Platform_init (max_x w + gap) y width 20 t],
          max_x = max_x w + gap + width\<rparr>"
proof -
  obtain width g1 where w: "randint PLATFORM_MIN_WIDTH PLATFORM_MAX_WIDTH g = (width, g1)"
    by (cases "randint PLATFORM_MIN_WIDTH PLATFORM_MAX_WIDTH g")
  obtain gap g2 where gp: "randint PLATFORM_MIN_GAP PLATFORM_MAX_GAP g1 = (gap, g2)"
    by (cases "randint PLATFORM_MIN_GAP PLATFORM_MAX_GAP g1")
  obtain dy g3 where d: "randint (- 120) 120 g2 = (dy, g3)"
    by (cases "randint (- 120) 120 g2")
  obtain r g4 where r: "random g3 = (r, g4)"
    by (cases "random g3")
  have "PLATFORM_MIN_WIDTH \<le> width \<and> width \<le> PLATFORM_MAX_WIDTH"
    using randint_range [of PLATFORM_MIN_WIDTH PLATFORM_MAX_WIDTH g] w
    by (simp add: settings)
  moreover have "PLATFORM_MIN_GAP \<le> gap \<and> gap \<le> PLATFORM_MAX_GAP"
    using randint_range [of PLATFORM_MIN_GAP PLATFORM_MAX_GAP g1] gp
    by (simp add: settings)
  moreover have "PLATFORM_MIN_Y \<le> max PLATFORM_MIN_Y (min PLATFORM_MAX_Y (get_last_y w + dy))
      \<and> max PLATFORM_MIN_Y (min PLATFORM_MAX_Y (get_last_y w + dy)) \<le> PLATFORM_MAX_Y"
    by (simp add: settings)
  moreover have "fst (generate_one w g) =
      \<lparr>platforms = platforms w @ [Platform_init (max_x w + gap)
          (max PLATFORM_MIN_Y (min PLATFORM_MAX_Y (get_last_y w + dy))) width 20
          (r < TEMP_PLATFORM_CHANCE)],
       max_x = max_x w + gap + width\<rparr>"
    by (simp add: generate_one_def Let_def w gp d r Platform_init_def)
  ultimately show ?thesis by blast
qed

lemma generate_one_inv:
  assumes "gen_inv w"
  shows "gen_inv (fst (generate_one w g))"
proof -
  obtain width gap y t where b: "PLATFORM_MIN_WIDTH \<le> width" "PLATFORM_MIN_GAP \<le> gap"
    and e: "fst (generate_one w g) =
         \<lparr>platforms = platforms w @ [Platform_init (max_x w + gap) y width 20 t],
          max_x = max_x w + gap + width\<rparr>"
    using generate_one_shape [of w g] by blast
  have all: "\<forall>p\<in>set (platforms w). right_edge p \<le> max_x w \<and> 0 < plat_w p"
    using assms unfolding gen_inv_def list_all_iff by blast
  have srt: "sorted_wrt (\<lambda>p q. right_edge p + PLATFORM_MIN_GAP \<le> plat_x q) (platforms w)"
    using assms by (simp add: gen_inv_def)
  show ?thesis
    using b all srt
    by (auto simp: e gen_inv_def list_all_iff sorted_wrt_append right_edge_def Platform_init_def
        PLATFORM_MIN_WIDTH_def PLATFORM_MIN_GAP_def)
qed

lemma generate_until_inv:
  "gen_inv w \<Longrightarrow> gen_inv (fst (generate_until w limit_x g))"
proof (induction w limit_x g rule: generate_until.induct)
  case (1 w limit_x g)
  show ?case
  proof (cases "of_int (max_x w) < limit_x")
    case True
    obtain w' g' where s: "generate_one w g = (w', g')"
      by (cases "generate_one w g")
    have "gen_inv w'"
      using generate_one_inv [OF "1.prems", of g] s by simp
    then have "gen_inv (fst (generate_until w' limit_x g'))"
      by (rule "1.IH" [OF True s [symmetric]])
    then show ?thesis
      using True s by (subst generate_until.simps) simp
  next
    case False
    then show ?thesis
      using "1.prems" by (subst generate_until.simps) simp
  qed
qed

lemma generate_seq_inv:
  "gen_inv w \<Longrightarrow> gen_inv (fst (generate_seq w ls g))"
proof (induction ls arbitrary: w g)
  case Nil
  then show ?case by simp
next
  case (Cons l ls)
  obtain w' g' where s: "generate_until w l g = (w', g')"
    by (cases "generate_until w l g")
  have "gen_inv w'"
    using generate_until_inv [OF Cons.prems, of l g] s by simp
  then show ?case
    using Cons.IH [of w' g'] s by simp
qed

text \<open>
  C5. After any sequence of \<open>generate_until\<close> calls on a freshly constructed world, with
  any limits and any random draws, the platforms are strictly ordered by \<open>x\<close>, every
  platform starts at least the minimum gap of 60 after the right edge of the platform
  before it (the frontier at the time it was generated), and \<open>max_x\<close> is the right edge
  \<open>x + w\<close> of the last, rightmost platform.
\<close>

theorem generate_until_invariant:
  "sorted_wrt (\<lambda>p q. plat_x p < plat_x q) (platforms (fst (generate_seq World_init ls g)))
   \<and> successively (\<lambda>p q. plat_x p + plat_w p + 60 \<le> plat_x q)
        (platforms (fst (generate_seq World_init ls g)))
   \<and> platforms (fst (generate_seq World_init ls g)) \<noteq> []
   \<and> max_x (fst (generate_seq World_init ls g)) =
       plat_x (last (platforms (fst (generate_seq World_init ls g))))
       + plat_w (last (platforms (fst (generate_seq World_init ls g))))"
proof -
  define w where "w = fst (generate_seq World_init ls g)"
  have inv: "gen_inv w"
    unfolding w_def by (rule generate_seq_inv [OF gen_inv_init])
  have all: "\<forall>p\<in>set (platforms w). 0 < plat_w p"
    using inv unfolding gen_inv_def list_all_iff by blast
  have gap: "sorted_wrt (\<lambda>p q. right_edge p + PLATFORM_MIN_GAP \<le> plat_x q) (platforms w)"
    using inv by (simp add: gen_inv_def)
  have "sorted_wrt (\<lambda>p q. plat_x p < plat_x q) (platforms w)"
    using gap all
    by (rule_tac sorted_wrt_mono_rel [where P = "\<lambda>p q. right_edge p + PLATFORM_MIN_GAP \<le> plat_x q"])
       (auto simp: right_edge_def PLATFORM_MIN_GAP_def)
  moreover have "successively (\<lambda>p q. plat_x p + plat_w p + 60 \<le> plat_x q) (platforms w)"
    using gap by (simp add: right_edge_def PLATFORM_MIN_GAP_def successively_if_sorted_wrt)
  moreover have "platforms w \<noteq> []" "max_x w = plat_x (last (platforms w)) + plat_w (last (platforms w))"
    using inv by (simp_all add: gen_inv_def right_edge_def)
  ultimately show ?thesis
    unfolding w_def by simp
qed

section \<open>Score\<close>

lemma py_int_of_int: "py_int (of_int n) = n"
  by (simp add: py_int_def)

lemma tick_score:
  "score (tick s keys dt) = \<lfloor>player_x (player (tick s keys dt)) / 10\<rfloor>"
  by (simp add: tick_def Let_def py_floordiv_def py_int_of_int split: prod.splits)

lemma handle_event_menu:
  assumes "in_menu s" and "e \<noteq> KEYDOWN K_SPACE"
  shows "in_menu (handle_event s e) \<and> score (handle_event s e) = score s"
  using assms by (cases e) (auto simp: handle_event_def Let_def)

lemma handle_events_menu:
  "in_menu s \<Longrightarrow> KEYDOWN K_SPACE \<notin> set es \<Longrightarrow>
     in_menu (foldl handle_event s es) \<and> score (foldl handle_event s es) = score s"
proof (induction es arbitrary: s)
  case Nil
  then show ?case by simp
next
  case (Cons e es)
  have "in_menu (handle_event s e) \<and> score (handle_event s e) = score s"
    using Cons.prems by (intro handle_event_menu) auto
  then show ?case
    using Cons.IH [of "handle_event s e"] Cons.prems by simp
qed

lemma frame_menu:
  "in_menu s \<Longrightarrow> KEYDOWN K_SPACE \<notin> set (events f) \<Longrightarrow>
     in_menu (frame s f) \<and> score (frame s f) = score s"
  using handle_events_menu [of s "events f"] by (simp add: frame_def Let_def)

lemma main_loop_menu:
  "in_menu s \<Longrightarrow> \<forall>f\<in>set fs. KEYDOWN K_SPACE \<notin> set (events f) \<Longrightarrow>
     in_menu (main_loop s fs) \<and> score (main_loop s fs) = score s"
proof (induction fs arbitrary: s)
  case Nil
  then show ?case by simp
next
  case (Cons f fs)
  have "in_menu (frame s f) \<and> score (frame s f) = score s"
    using Cons.prems by (intro frame_menu) auto
  then show ?case
    using Cons.IH [of "frame s f"] Cons.prems by simp
qed

lemma handle_event_playing:
  "fresh_round s \<Longrightarrow> fresh_round (handle_event s e)"
  by (cases e) (auto simp: handle_event_def fresh_round_def Let_def)

lemma handle_events_playing:
  "fresh_round s \<Longrightarrow> fresh_round (foldl handle_event s es)"
  by (induction es arbitrary: s) (simp_all add: handle_event_playing)

lemma handle_event_reset:
  "in_menu s \<Longrightarrow> fresh_round (handle_event s (KEYDOWN K_SPACE))"
  by (simp add: handle_event_def fresh_round_def Let_def)

lemma handle_events_reset:
  assumes "in_menu s" and "KEYDOWN K_SPACE \<in> set es"
  shows "fresh_round (foldl handle_event s es)"
proof -
  obtain pre post where es: "es = pre @ KEYDOWN K_SPACE # post" and pre: "KEYDOWN K_SPACE \<notin> set pre"
    using split_list_first [OF assms(2)] by blast
  have "in_menu (foldl handle_event s pre)"
    using handle_events_menu [OF assms(1) pre] by simp
  then have "fresh_round (handle_event (foldl handle_event s pre) (KEYDOWN K_SPACE))"
    by (rule handle_event_reset)
  then show ?thesis
    by (simp add: es handle_events_playing)
qed

text \<open>
  C9. In every pass of the main loop in which the game is not in the menu after the
  events have been handled (the player is alive, including the pass on which death is
  detected), the score shown at the end of the pass is \<open>\<lfloor>x / 10\<rfloor>\<close> for the player's
  \<open>x\<close>. Once in the menu, the score keeps its value over any number of passes that
  carry no Space key-down event. A Space key-down event in the menu rebuilds the round:
  score zero, a fresh player and world, the camera at zero.
\<close>

theorem score_law:
  "(\<not> in_menu (foldl handle_event s (events f)) \<longrightarrow>
      score (frame s f) = \<lfloor>player_x (player (frame s f)) / 10\<rfloor>)
   \<and> (in_menu s \<and> (\<forall>f\<in>set fs. KEYDOWN K_SPACE \<notin> set (events f)) \<longrightarrow>
      in_menu (main_loop s fs) \<and> score (main_loop s fs) = score s)
   \<and> (in_menu s \<and> KEYDOWN K_SPACE \<in> set (events f) \<longrightarrow>
      \<not> in_menu (foldl handle_event s (events f)) \<and> score (foldl handle_event s (events f)) = 0
      \<and> player (foldl handle_event s (events f)) = Player_init 120 (SCREEN_HEIGHT - 180)
      \<and> world (foldl handle_event s (events f)) = World_init
      \<and> camera_x (foldl handle_event s (events f)) = 0)"
proof (intro conjI impI)
  assume "\<not> in_menu (foldl handle_event s (events f))"
  then show "score (frame s f) = \<lfloor>player_x (player (frame s f)) / 10\<rfloor>"
    by (simp add: frame_def Let_def tick_score)
next
  assume a: "in_menu s \<and> (\<forall>f\<in>set fs. KEYDOWN K_SPACE \<notin> set (events f))"
  then show "in_menu (main_loop s fs)" "score (main_loop s fs) = score s"
    using main_loop_menu [of s fs] by simp_all
next
  assume a: "in_menu s \<and> KEYDOWN K_SPACE \<in> set (events f)"
  then have "fresh_round (foldl handle_event s (events f))"
    by (simp add: handle_events_reset)
  then show "\<not> in_menu (foldl handle_event s (events f))"
    "score (foldl handle_event s (events f)) = 0"
    "player (foldl handle_event s (events f)) = Player_init 120 (SCREEN_HEIGHT - 180)"
    "world (foldl handle_event s (events f)) = World_init"
    "camera_x (foldl handle_event s (events f)) = 0"
    by (simp_all add: fresh_round_def)
qed

theorem score_law_witness:
  "\<not> in_menu (foldl handle_event (Game_init (\<lambda>n. 0)) (events idle_frame))
   \<and> score (frame (Game_init (\<lambda>n. 0)) idle_frame) =
       \<lfloor>player_x (player (frame (Game_init (\<lambda>n. 0)) idle_frame)) / 10\<rfloor>
   \<and> in_menu menu_state \<and> KEYDOWN K_SPACE \<notin> set (events idle_frame)
   \<and> in_menu (main_loop menu_state [idle_frame, idle_frame])
   \<and> score (main_loop menu_state [idle_frame, idle_frame]) = 57
   \<and> KEYDOWN K_SPACE \<in> set (events restart_frame)
   \<and> \<not> in_menu (foldl handle_event menu_state (events restart_frame))
   \<and> score (foldl handle_event menu_state (events restart_frame)) = 0"
proof -
  have h1: "\<not> in_menu (foldl handle_event (Game_init (\<lambda>n. 0)) (events idle_frame))"
    by (simp add: idle_frame_def Game_init_def)
  have h2: "in_menu menu_state" "KEYDOWN K_SPACE \<notin> set (events idle_frame)"
    "\<forall>f\<in>set [idle_frame, idle_frame]. KEYDOWN K_SPACE \<notin> set (events f)"
    "score menu_state = 57"
    by (simp_all add: menu_state_def idle_frame_def)
  have h3: "KEYDOWN K_SPACE \<in> set (events restart_frame)"
    by (simp add: restart_frame_def)
  show ?thesis
    using h1 h2 h3
      score_law [of "Game_init (\<lambda>n. 0)" idle_frame "[]"]
      score_law [of menu_state restart_frame "[idle_frame, idle_frame]"]
    by metis
qed

end
